theory Spec2Isabelle
  imports Complex_Main
begin

section \<open>The UniFi PoE webhook server: the per-port operation coordinator\<close>

text \<open>
  This theory embeds the class \<^verbatim>\<open>UniFiPortController\<close> of
  \<^verbatim>\<open>unifi_webhook_server.py\<close>: the per-operation rate limiter, the device cooldown
  gate, the three mutating operations, the status query and the body of the queue
  worker's loop.

  Conventions of the embedding.
  \<^item> A timestamp (a Python float, seconds since the epoch) is a real number; the rounding
    of floating-point subtraction is not modelled.
  \<^item> Every call of \<^verbatim>\<open>time.time()\<close> is a read of the clock of the world: the k-th read
    returns \<open>clock w k\<close>. Two reads inside one request are two values, as in the code.
  \<^item> Every \<^verbatim>\<open>datetime.now().isoformat()\<close> is a read of a second sequence, \<open>wall\<close>.
  \<^item> The outcome of the k-th HTTP request is \<open>network w k\<close>: a response with a status
    code, or an exception with its message.
  \<^item> Requests sent, sleeps and log lines are appended to the \<open>trace\<close> of the world.
  \<^item> A response dictionary is a record whose optional keys are options; the key
    \<^verbatim>\<open>"method"\<close> of the status answer is the field \<open>status_method\<close>.
\<close>

subsection \<open>Python's \<^verbatim>\<open>str\<close> of an integer and \<^verbatim>\<open>int\<close> of a float\<close>

definition digit_char :: "nat \<Rightarrow> char" where
  "digit_char d = char_of (48 + d)"

function str_nat :: "nat \<Rightarrow> string" where
  "str_nat n = (if n < 10 then [digit_char n] else str_nat (n div 10) @ [digit_char (n mod 10)])"
  by pat_completeness auto
termination
  by (relation "measure (\<lambda>n. n)") auto

declare str_nat.simps [simp del]

definition str_int :: "int \<Rightarrow> string" where
  "str_int i = (if i < 0 then CHR ''-'' # str_nat (nat (- i)) else str_nat (nat i))"

text \<open>\<^verbatim>\<open>int(x)\<close> of a float truncates towards zero.\<close>

definition int_of_float :: "real \<Rightarrow> int" where
  "int_of_float x = (if 0 \<le> x then \<lfloor>x\<rfloor> else \<lceil>x\<rceil>)"

subsection \<open>The world outside the controller\<close>

datatype http_outcome = Status_code int | Raised string

datatype event =
    Post string string
  | Sleep real
  | Log_info string
  | Log_warning string
  | Log_error string

record world =
  clock :: "nat \<Rightarrow> real"
  ticks :: nat
  wall :: "nat \<Rightarrow> string"
  wall_reads :: nat
  network :: "nat \<Rightarrow> http_outcome"
  sent :: nat
  trace :: "event list"

definition time_time :: "world \<Rightarrow> real \<times> world" where
  "time_time w = (clock w (ticks w), w\<lparr>ticks := ticks w + 1\<rparr>)"

definition datetime_now_isoformat :: "world \<Rightarrow> string \<times> world" where
  "datetime_now_isoformat w = (wall w (wall_reads w), w\<lparr>wall_reads := wall_reads w + 1\<rparr>)"

definition emit :: "event \<Rightarrow> world \<Rightarrow> world" where
  "emit e w = w\<lparr>trace := trace w @ [e]\<rparr>"

subsection \<open>The controller\<close>

record unifi_config =
  base_url :: string
  site_id :: string
  device_id :: string

record job =
  job_port :: int
  job_action :: string
  job_delay :: real

text \<open>
  The attributes of \<^verbatim>\<open>UniFiPortController\<close> that the operations use. The queue holds
  the jobs in arrival order; \<open>None\<close> is the shutdown signal the worker tests for. The two
  attributes
  \<^verbatim>\<open>rate_limit_seconds\<close> and \<^verbatim>\<open>unifi_cooldown\<close> are set once in \<^verbatim>\<open>__init__\<close> and never
  assigned again: they are constants here.
\<close>

record controller =
  config :: unifi_config
  last_operation_time :: "string \<rightharpoonup> real"
  operation_queue :: "job option list"
  last_unifi_operation :: "int \<rightharpoonup> real"

definition rate_limit_seconds :: real where
  "rate_limit_seconds = 30"

definition unifi_cooldown :: real where
  "unifi_cooldown = 10"

record response =
  success :: bool
  action :: "string option"
  port :: int
  status :: "string option"
  error :: "string option"
  rate_limited :: "bool option"
  retry_after :: "int option"
  queued_delay :: "real option"
  message :: "string option"
  status_method :: "string option"
  timestamp :: string

text \<open>
  \<^verbatim>\<open>_make_request\<close>, as the controller calls it (always with \<^verbatim>\<open>'POST'\<close>): the
  request goes to \<^verbatim>\<open>base_url/endpoint\<close> with the JSON body \<^verbatim>\<open>{"action": a}\<close>; it is
  recorded in the trace and answered by the network.
\<close>

definition make_request :: "string \<Rightarrow> string \<Rightarrow> controller \<Rightarrow> world \<Rightarrow> http_outcome \<times> world" where
  "make_request endpoint a c w =
     (let url = base_url (config c) @ ''/'' @ endpoint
      in (network w (sent w), (emit (Post url a) w)\<lparr>sent := sent w + 1\<rparr>))"

definition can_execute_immediately :: "int \<Rightarrow> controller \<Rightarrow> world \<Rightarrow> bool \<times> world" where
  "can_execute_immediately p c w =
     (case last_unifi_operation c p of
        None \<Rightarrow> (True, w)
      | Some t \<Rightarrow>
          (let (now, w1) = time_time w;
               time_since_last = now - t
           in (time_since_last \<ge> unifi_cooldown, w1)))"

definition get_operation_key :: "int \<Rightarrow> string \<Rightarrow> string" where
  "get_operation_key p operation = str_int p @ '':'' @ operation"

definition is_port_operation_rate_limited ::
    "int \<Rightarrow> string \<Rightarrow> controller \<Rightarrow> world \<Rightarrow> bool \<times> world" where
  "is_port_operation_rate_limited p operation c w =
     (let key = get_operation_key p operation
      in case last_operation_time c key of
           None \<Rightarrow> (False, w)
         | Some t \<Rightarrow>
             (let (now, w1) = time_time w;
                  time_since_last = now - t
              in (time_since_last < rate_limit_seconds, w1)))"

definition record_port_operation ::
    "int \<Rightarrow> string \<Rightarrow> controller \<Rightarrow> world \<Rightarrow> controller \<times> world" where
  "record_port_operation p operation c w =
     (let key = get_operation_key p operation;
          (now, w1) = time_time w
      in (c\<lparr>last_operation_time := (last_operation_time c)(key \<mapsto> now)\<rparr>, w1))"

text \<open>The text of the rate-limit error (an f-string in \<^verbatim>\<open>_get_rate_limit_response\<close>).\<close>

definition rate_limit_error :: "int \<Rightarrow> string \<Rightarrow> string" where
  "rate_limit_error n a =
     ''Rate limited. Please wait '' @ str_int n @ '' seconds before next '' @ a @ '' operation''"

definition get_rate_limit_response ::
    "int \<Rightarrow> string \<Rightarrow> controller \<Rightarrow> world \<Rightarrow> response \<times> world" where
  "get_rate_limit_response p a c w =
     (let key = get_operation_key p a;
          (now, w1) = time_time w;
          time_remaining = rate_limit_seconds
             - (now - (case last_operation_time c key of None \<Rightarrow> 0 | Some t \<Rightarrow> t));
          (ts, w2) = datetime_now_isoformat w1
      in (\<lparr>success = False, action = Some a, port = p, status = None,
            error = Some (rate_limit_error (int_of_float time_remaining) a),
            rate_limited = Some True, retry_after = Some (int_of_float time_remaining),
            queued_delay = None, message = None, status_method = None, timestamp = ts\<rparr>, w2))"

text \<open>The endpoint of the port's actions (an f-string in \<^verbatim>\<open>_execute_power_cycle\<close>).\<close>

definition actions_endpoint :: "controller \<Rightarrow> int \<Rightarrow> string" where
  "actions_endpoint c p =
     ''sites/'' @ site_id (config c) @ ''/devices/'' @ device_id (config c)
       @ ''/interfaces/ports/'' @ str_int p @ ''/actions''"

definition execute_power_cycle ::
    "int \<Rightarrow> string \<Rightarrow> controller \<Rightarrow> world \<Rightarrow> response \<times> world" where
  "execute_power_cycle p a c w =
     (let endpoint = actions_endpoint c p;
          (outcome, w1) = make_request endpoint ''POWER_CYCLE'' c w;
          (ts, w2) = datetime_now_isoformat w1
      in case outcome of
           Status_code code \<Rightarrow>
             if code = 200
             then (\<lparr>success = True, action = Some a, port = p, status = Some ''cycling'',
                    error = None, rate_limited = None, retry_after = None,
                    queued_delay = None, message = None, status_method = None, timestamp = ts\<rparr>, w2)
             else (\<lparr>success = False, action = Some a, port = p, status = None,
                    error = Some (''HTTP '' @ str_int code), rate_limited = None,
                    retry_after = None, queued_delay = None, message = None, status_method = None,
                    timestamp = ts\<rparr>, w2)
         | Raised e \<Rightarrow>
             (\<lparr>success = False, action = Some a, port = p, status = None,
               error = Some e, rate_limited = None, retry_after = None,
               queued_delay = None, message = None, status_method = None, timestamp = ts\<rparr>, w2))"

definition power_on_port :: "int \<Rightarrow> controller \<Rightarrow> world \<Rightarrow> response \<times> controller \<times> world" where
  "power_on_port p c w =
     (let (c1, w1) = record_port_operation p ''power_on'' c w;
          (ts, w2) = datetime_now_isoformat w1
      in (\<lparr>success = True, action = Some ''power_on'', port = p,
            status = Some ''no_action_needed'', error = None, rate_limited = None,
            retry_after = None, queued_delay = None,
            message = Some ''Port will power on automatically after power cycle'',
            status_method = None, timestamp = ts\<rparr>, c1, w2))"

definition power_off_port :: "int \<Rightarrow> controller \<Rightarrow> world \<Rightarrow> response \<times> controller \<times> world" where
  "power_off_port p c w =
     (let (limited, w1) = is_port_operation_rate_limited p ''power_off'' c w
      in if limited
         then (let (r, w2) = get_rate_limit_response p ''power_off'' c w1 in (r, c, w2))
         else
           (let (c1, w2) = record_port_operation p ''power_off'' c w1;
                (immediate, w3) = can_execute_immediately p c1 w2
            in if immediate
               then
                 (let (result, w4) = execute_power_cycle p ''power_off'' c1 w3
                  in if success result
                     then (let (now, w5) = time_time w4
                           in (result,
                               c1\<lparr>last_unifi_operation := (last_unifi_operation c1)(p \<mapsto> now)\<rparr>,
                               w5))
                     else (result, c1, w4))
               else
                 (let (now, w4) = time_time w3;
                      delay = unifi_cooldown
                        - (now - (case last_unifi_operation c1 p of None \<Rightarrow> 0 | Some t \<Rightarrow> t));
                      c2 = c1\<lparr>operation_queue := operation_queue c1 @
                             [Some \<lparr>job_port = p, job_action = ''power_off'',
                                    job_delay = max 0 delay\<rparr>]\<rparr>;
                      (ts, w5) = datetime_now_isoformat w4
                  in (\<lparr>success = True, action = Some ''power_off'', port = p,
                        status = Some ''queued'', error = None, rate_limited = None,
                        retry_after = None, queued_delay = Some (max 0 delay),
                        message = Some (''Operation queued for execution in ''
                                        @ str_int (max 0 (int_of_float delay)) @ '' seconds''),
                        status_method = None, timestamp = ts\<rparr>, c2, w5))))"

definition power_cycle_port :: "int \<Rightarrow> controller \<Rightarrow> world \<Rightarrow> response \<times> controller \<times> world" where
  "power_cycle_port p c w =
     (let (limited, w1) = is_port_operation_rate_limited p ''power_cycle'' c w
      in if limited
         then (let (r, w2) = get_rate_limit_response p ''power_cycle'' c w1 in (r, c, w2))
         else
           (let (c1, w2) = record_port_operation p ''power_cycle'' c w1;
                (immediate, w3) = can_execute_immediately p c1 w2
            in if immediate
               then
                 (let (result, w4) = execute_power_cycle p ''power_cycle'' c1 w3
                  in if success result
                     then (let (now, w5) = time_time w4
                           in (result,
                               c1\<lparr>last_unifi_operation := (last_unifi_operation c1)(p \<mapsto> now)\<rparr>,
                               w5))
                     else (result, c1, w4))
               else
                 (let (now, w4) = time_time w3;
                      delay = unifi_cooldown
                        - (now - (case last_unifi_operation c1 p of None \<Rightarrow> 0 | Some t \<Rightarrow> t));
                      c2 = c1\<lparr>operation_queue := operation_queue c1 @
                             [Some \<lparr>job_port = p, job_action = ''power_cycle'',
                                    job_delay = max 0 delay\<rparr>]\<rparr>;
                      (ts, w5) = datetime_now_isoformat w4
                  in (\<lparr>success = True, action = Some ''power_cycle'', port = p,
                        status = Some ''queued'', error = None, rate_limited = None,
                        retry_after = None, queued_delay = Some (max 0 delay),
                        message = Some (''Operation queued for execution in ''
                                        @ str_int (max 0 (int_of_float delay)) @ '' seconds''),
                        status_method = None, timestamp = ts\<rparr>, c2, w5))))"

definition get_port_status :: "int \<Rightarrow> controller \<Rightarrow> world \<Rightarrow> response \<times> controller \<times> world" where
  "get_port_status p c w =
     (let power_off_key = str_int p @ '':power_off'';
          power_on_key = str_int p @ '':power_on'';
          power_off_time = (case last_operation_time c power_off_key of None \<Rightarrow> 0 | Some t \<Rightarrow> t);
          power_on_time = (case last_operation_time c power_on_key of None \<Rightarrow> 0 | Some t \<Rightarrow> t);
          st = (if power_off_time > power_on_time then ''stopped'' else ''running'');
          status_message = ''status: '' @ st;
          (ts, w1) = datetime_now_isoformat w
      in (\<lparr>success = True, action = None, port = p, status = Some status_message,
            error = None, rate_limited = None, retry_after = None, queued_delay = None,
            message = None, status_method = Some ''operation_tracking'', timestamp = ts\<rparr>, c, w1))"

subsection \<open>One pass of the loop of the queue worker\<close>

text \<open>
  The worker takes the job at the head of the queue. On an empty queue \<^verbatim>\<open>get()\<close> blocks;
  \<open>None\<close> ends the loop. \<^verbatim>\<open>time.sleep\<close> raises \<^verbatim>\<open>ValueError\<close> on a negative delay, which
  the handler of the loop logs. The worker returns nothing to any caller: the result of
  a pass is the new controller and the new world.
\<close>

datatype worker_status = Blocked | Shutdown | Processed

definition queue_worker_pass :: "controller \<Rightarrow> world \<Rightarrow> worker_status \<times> controller \<times> world" where
  "queue_worker_pass c w =
     (case operation_queue c of
        [] \<Rightarrow> (Blocked, c, w)
      | None # q \<Rightarrow> (Shutdown, c\<lparr>operation_queue := q\<rparr>, w)
      | Some j # q \<Rightarrow>
          (let c1 = c\<lparr>operation_queue := q\<rparr>;
               p = job_port j;
               a = job_action j;
               delay = job_delay j
           in if delay < 0
              then (Processed, c1,
                    emit (Log_error ''Error in queue worker: sleep length must be non-negative'') w)
              else
                (let w1 = emit (Sleep delay) w;
                     w2 = emit (Log_info (''Executing queued '' @ a @ '' operation for port ''
                                          @ str_int p)) w1;
                     (result, w3) = execute_power_cycle p a c1 w2
                 in if success result
                    then (let (now, w4) = time_time w3;
                              c2 = c1\<lparr>last_unifi_operation := (last_unifi_operation c1)(p \<mapsto> now)\<rparr>
                          in (Processed, c2,
                              emit (Log_info (''Queued '' @ a @ '' operation for port '' @ str_int p
                                              @ '' completed successfully'')) w4))
                    else (Processed, c1,
                          emit (Log_warning (''Queued '' @ a @ '' operation for port '' @ str_int p
                                  @ '' failed: ''
                                  @ (case error result of None \<Rightarrow> ''Unknown error'' | Some e \<Rightarrow> e)))
                               w3))))"

subsection \<open>The algorithm of section 4.3 of the specification, for any label\<close>

text \<open>
  The specification describes one algorithm for PowerOff and PowerCycle, in five steps,
  "differing only in the logical-operation label". \<open>spec_power_operation\<close> is that
  algorithm with the label as a parameter; it is compared below with the two functions
  of the source, which are written out separately there.
\<close>

definition spec_power_operation ::
    "string \<Rightarrow> int \<Rightarrow> controller \<Rightarrow> world \<Rightarrow> response \<times> controller \<times> world" where
  "spec_power_operation a p c w =
     (let (limited, w1) = is_port_operation_rate_limited p a c w
      in if limited
         then (let (r, w2) = get_rate_limit_response p a c w1 in (r, c, w2))
         else
           (let (c1, w2) = record_port_operation p a c w1;
                (immediate, w3) = can_execute_immediately p c1 w2
            in if immediate
               then
                 (let (result, w4) = execute_power_cycle p a c1 w3
                  in if success result
                     then (let (now, w5) = time_time w4
                           in (result,
                               c1\<lparr>last_unifi_operation := (last_unifi_operation c1)(p \<mapsto> now)\<rparr>,
                               w5))
                     else (result, c1, w4))
               else
                 (let (now, w4) = time_time w3;
                      delay = unifi_cooldown
                        - (now - (case last_unifi_operation c1 p of None \<Rightarrow> 0 | Some t \<Rightarrow> t));
                      c2 = c1\<lparr>operation_queue := operation_queue c1 @
                             [Some \<lparr>job_port = p, job_action = a, job_delay = max 0 delay\<rparr>]\<rparr>;
                      (ts, w5) = datetime_now_isoformat w4
                  in (\<lparr>success = True, action = Some a, port = p,
                        status = Some ''queued'', error = None, rate_limited = None,
                        retry_after = None, queued_delay = Some (max 0 delay),
                        message = Some (''Operation queued for execution in ''
                                        @ str_int (max 0 (int_of_float delay)) @ '' seconds''),
                        status_method = None, timestamp = ts\<rparr>, c2, w5))))"

text \<open>The two rate-limited operations of the controller, each with its label.\<close>

definition limited_ops ::
    "((int \<Rightarrow> controller \<Rightarrow> world \<Rightarrow> response \<times> controller \<times> world) \<times> string) set" where
  "limited_ops = {(power_off_port, ''power_off''), (power_cycle_port, ''power_cycle'')}"

subsection \<open>Relabelling PowerOff and PowerCycle\<close>

definition swap_label :: "string \<Rightarrow> string" where
  "swap_label a = (if a = ''power_off'' then ''power_cycle''
                   else if a = ''power_cycle'' then ''power_off'' else a)"




subsection \<open>Two requests in two threads\<close>

text \<open>
  The controller holds no lock, and the handler of a request calls
  \<^verbatim>\<open>_is_port_operation_rate_limited\<close> and then \<^verbatim>\<open>_record_port_operation\<close> (or
  \<^verbatim>\<open>_get_rate_limit_response\<close>) as two separate calls. A request in flight is therefore
  in one of four stages, and a step of a thread is one of these calls on the shared
  controller. A schedule says which of two threads runs next.
\<close>

datatype stage = Arrived | Checked bool | Accepted | Rejected

definition limiter_step ::
    "int \<Rightarrow> string \<Rightarrow> stage \<Rightarrow> controller \<Rightarrow> world \<Rightarrow> stage \<times> controller \<times> world" where
  "limiter_step p a st c w =
     (case st of
        Arrived \<Rightarrow>
          (let (limited, w1) = is_port_operation_rate_limited p a c w
           in (Checked limited, c, w1))
      | Checked limited \<Rightarrow>
          if limited
          then (let (r, w1) = get_rate_limit_response p a c w in (Rejected, c, w1))
          else (let (c1, w1) = record_port_operation p a c w in (Accepted, c1, w1))
      | Accepted \<Rightarrow> (Accepted, c, w)
      | Rejected \<Rightarrow> (Rejected, c, w))"

fun run_threads ::
    "bool list \<Rightarrow> int \<Rightarrow> string \<Rightarrow> stage \<times> stage \<times> controller \<times> world
       \<Rightarrow> stage \<times> stage \<times> controller \<times> world" where
  "run_threads [] p a cfg = cfg"
| "run_threads (second # sched) p a (s1, s2, c, w) =
     (if second
      then (let (s2', c', w') = limiter_step p a s2 c w in run_threads sched p a (s1, s2', c', w'))
      else (let (s1', c', w') = limiter_step p a s1 c w in run_threads sched p a (s1', s2, c', w')))"

text \<open>
  The schedules of two requests of two steps each. In a serial schedule one request
  checks and records before the other checks.
\<close>

definition schedules :: "bool list set" where
  "schedules = {[False, False, True, True], [True, True, False, False],
                [False, True, False, True], [False, True, True, False],
                [True, False, True, False], [True, False, False, True]}"

definition serial :: "bool list \<Rightarrow> bool" where
  "serial sched \<longleftrightarrow> sched = [False, False, True, True] \<or> sched = [True, True, False, False]"

subsection \<open>Concrete controllers and worlds\<close>

text \<open>
  The controller as \<^verbatim>\<open>__init__\<close> leaves it, and a world whose clock starts at \<open>t\<close>
  and advances by \<open>step\<close> at every read, with a network that always answers \<open>out\<close>.
\<close>

definition init_controller :: controller where
  "init_controller =
     \<lparr>config = \<lparr>base_url = ''https://10.0.1.1/proxy/network/integration/v1'',
                 site_id = ''default'', device_id = ''switch''\<rparr>,
      last_operation_time = Map.empty, operation_queue = [],
      last_unifi_operation = Map.empty\<rparr>"

definition ticking_world :: "real \<Rightarrow> real \<Rightarrow> http_outcome \<Rightarrow> world" where
  "ticking_world t step out =
     \<lparr>clock = (\<lambda>k. t + step * real k), ticks = 0, wall = (\<lambda>k. ''2026-01-01T00:00:00''),
      wall_reads = 0, network = (\<lambda>k. out), sent = 0, trace = []\<rparr>"

section \<open>Properties\<close>

subsection \<open>The key of a (port, operation) pair identifies the pair\<close>

lemma digit_char_inj: "a < 10 \<Longrightarrow> b < 10 \<Longrightarrow> digit_char a = digit_char b \<longleftrightarrow> a = b"
  unfolding digit_char_def
proof
  assume a: "a < 10" and b: "b < 10" and e: "(char_of (48 + a) :: char) = char_of (48 + b)"
  have "of_char (char_of (48 + a) :: char) = (of_char (char_of (48 + b) :: char) :: nat)"
    using e by simp
  then have "(48 + a) mod 256 = (48 + b) mod 256"
    by (simp only: of_char_of)
  with a b show "a = b" by simp
qed simp

lemma digit_char_not_special:
  "d < 10 \<Longrightarrow> digit_char d \<noteq> CHR '':'' \<and> digit_char d \<noteq> CHR ''-''"
proof -
  assume d: "d < 10"
  have c: "of_char (digit_char d) = (48 + d) mod 256"
    unfolding digit_char_def by (simp only: of_char_of)
  have "(of_char (digit_char d) :: nat) \<noteq> of_char CHR '':''"
    using d by (simp add: c)
  moreover have "(of_char (digit_char d) :: nat) \<noteq> of_char CHR ''-''"
    using d by (simp add: c)
  ultimately show ?thesis by auto
qed

lemma str_nat_nonempty: "str_nat n \<noteq> []"
  by (subst str_nat.simps) simp

lemma str_nat_chars: "x \<in> set (str_nat n) \<Longrightarrow> x \<noteq> CHR '':'' \<and> x \<noteq> CHR ''-''"
proof (induction n rule: str_nat.induct)
  case (1 n)
  show ?case
  proof (cases "n < 10")
    case True
    with "1.prems" have "x = digit_char n"
      by (subst (asm) str_nat.simps) simp
    with True show ?thesis using digit_char_not_special [of n] by simp
  next
    case False
    with "1.prems" have "x \<in> set (str_nat (n div 10)) \<or> x = digit_char (n mod 10)"
      by (subst (asm) str_nat.simps) auto
    then show ?thesis
      using "1.IH" [OF False] digit_char_not_special [of "n mod 10"] by auto
  qed
qed

lemma str_nat_inj: "str_nat n = str_nat m \<Longrightarrow> n = m"
proof (induction n arbitrary: m rule: str_nat.induct)
  case (1 n)
  show ?case
  proof (cases "n < 10")
    case n: True
    show ?thesis
    proof (cases "m < 10")
      case True
      with n "1.prems" show ?thesis
        by (simp add: str_nat.simps [of n] str_nat.simps [of m] digit_char_inj)
    next
      case False
      with n "1.prems" show ?thesis
        using str_nat_nonempty [of "m div 10"]
        by (simp add: str_nat.simps [of n] str_nat.simps [of m])
    qed
  next
    case n: False
    show ?thesis
    proof (cases "m < 10")
      case True
      with n "1.prems" show ?thesis
        using str_nat_nonempty [of "n div 10"]
        by (simp add: str_nat.simps [of n] str_nat.simps [of m])
    next
      case False
      with n "1.prems" have e: "str_nat (n div 10) = str_nat (m div 10)"
        and d: "digit_char (n mod 10) = digit_char (m mod 10)"
        by (simp_all add: str_nat.simps [of n] str_nat.simps [of m])
      from "1.IH" [OF n e] have "n div 10 = m div 10" .
      moreover from d have "n mod 10 = m mod 10"
        by (simp add: digit_char_inj)
      ultimately show ?thesis
        by (metis div_mult_mod_eq)
    qed
  qed
qed

lemma str_int_inj: "str_int i = str_int j \<Longrightarrow> i = j"
proof -
  assume e: "str_int i = str_int j"
  have hd_neg: "\<And>n. hd (str_nat n) \<noteq> CHR ''-''"
    using str_nat_chars str_nat_nonempty by (metis hd_in_set)
  show ?thesis
  proof (cases "i < 0")
    case i: True
    show ?thesis
    proof (cases "j < 0")
      case True
      with i e have "str_nat (nat (- i)) = str_nat (nat (- j))" by (simp add: str_int_def)
      then have "nat (- i) = nat (- j)" by (rule str_nat_inj)
      with i True show ?thesis by simp
    next
      case False
      with i e have "CHR ''-'' # str_nat (nat (- i)) = str_nat (nat j)" by (simp add: str_int_def)
      then have "hd (str_nat (nat j)) = CHR ''-''" by (metis list.sel(1))
      with hd_neg show ?thesis by blast
    qed
  next
    case i: False
    show ?thesis
    proof (cases "j < 0")
      case True
      with i e have "str_nat (nat i) = CHR ''-'' # str_nat (nat (- j))" by (simp add: str_int_def)
      then have "hd (str_nat (nat i)) = CHR ''-''" by (metis list.sel(1))
      with hd_neg show ?thesis by blast
    next
      case False
      with i e have "str_nat (nat i) = str_nat (nat j)" by (simp add: str_int_def)
      then have "nat i = nat j" by (rule str_nat_inj)
      with i False show ?thesis by simp
    qed
  qed
qed

lemma str_int_no_colon: "CHR '':'' \<notin> set (str_int i)"
  using str_nat_chars by (auto simp: str_int_def)

lemma colon_split:
  assumes "CHR '':'' \<notin> set a" "CHR '':'' \<notin> set b" "a @ CHR '':'' # x = b @ CHR '':'' # y"
  shows "a = b \<and> x = y"
proof -
  have tw: "\<And>u v. CHR '':'' \<notin> set u \<Longrightarrow> takeWhile (\<lambda>c. c \<noteq> CHR '':'') (u @ CHR '':'' # v) = u"
  proof -
    fix u v :: string
    show "CHR '':'' \<notin> set u \<Longrightarrow> takeWhile (\<lambda>c. c \<noteq> CHR '':'') (u @ CHR '':'' # v) = u"
      by (induction u) auto
  qed
  have "takeWhile (\<lambda>c. c \<noteq> CHR '':'') (a @ CHR '':'' # x) = a"
    using assms(1) by (rule tw)
  moreover have "takeWhile (\<lambda>c. c \<noteq> CHR '':'') (b @ CHR '':'' # y) = b"
    using assms(2) by (rule tw)
  ultimately have "a = b" using assms(3) by simp
  with assms(3) show ?thesis by simp
qed

lemma get_operation_key_inj:
  "get_operation_key p a = get_operation_key q b \<longleftrightarrow> p = q \<and> a = b"
proof
  assume "get_operation_key p a = get_operation_key q b"
  then have "str_int p @ CHR '':'' # a = str_int q @ CHR '':'' # b"
    by (simp add: get_operation_key_def)
  from colon_split [OF str_int_no_colon str_int_no_colon this]
  show "p = q \<and> a = b" using str_int_inj by blast
qed simp

subsection \<open>The two operations of the source are the algorithm of the specification\<close>

lemma power_off_port_spec: "power_off_port p c w = spec_power_operation ''power_off'' p c w"
  by (simp add: power_off_port_def spec_power_operation_def)

lemma power_cycle_port_spec: "power_cycle_port p c w = spec_power_operation ''power_cycle'' p c w"
  by (simp add: power_cycle_port_def spec_power_operation_def)

lemma limited_ops_spec: "(f, a) \<in> limited_ops \<Longrightarrow> f p c w = spec_power_operation a p c w"
  by (auto simp: limited_ops_def power_off_port_spec power_cycle_port_spec)

subsection \<open>The device call and the rate-limit verdict\<close>

lemma exec_rate_limited [simp]: "rate_limited (fst (execute_power_cycle p a c w)) = None"
  by (simp add: execute_power_cycle_def make_request_def datetime_now_isoformat_def Let_def
      split: http_outcome.splits)

lemma exec_success: "success (fst (execute_power_cycle p a c w)) \<longleftrightarrow> network w (sent w) = Status_code 200"
  by (simp add: execute_power_cycle_def make_request_def datetime_now_isoformat_def Let_def
      split: http_outcome.splits)

lemma exec_status: "status (fst (execute_power_cycle p a c w)) \<noteq> Some ''queued''"
  by (simp add: execute_power_cycle_def make_request_def datetime_now_isoformat_def Let_def
      split: http_outcome.splits)

lemma exec_world:
  "snd (execute_power_cycle p a c w) =
     w\<lparr>wall_reads := wall_reads w + 1, sent := sent w + 1,
       trace := trace w @ [Post (base_url (config c) @ ''/'' @ actions_endpoint c p) ''POWER_CYCLE'']\<rparr>"
  by (simp add: execute_power_cycle_def make_request_def datetime_now_isoformat_def emit_def Let_def
      split: http_outcome.splits)

lemmas small_defs =
  is_port_operation_rate_limited_def get_rate_limit_response_def record_port_operation_def
  can_execute_immediately_def time_time_def
  datetime_now_isoformat_def rate_limit_seconds_def unifi_cooldown_def

lemma spec_rejected_iff:
  "(\<not> success (fst (spec_power_operation a p c w))
      \<and> rate_limited (fst (spec_power_operation a p c w)) = Some True)
   \<longleftrightarrow> (\<exists>t. last_operation_time c (get_operation_key p a) = Some t
            \<and> clock w (ticks w) - t < 30)"
  by (simp add: spec_power_operation_def small_defs Let_def case_prod_beta split: option.splits)

lemma spec_rate_limited_iff:
  "rate_limited (fst (spec_power_operation a p c w)) = Some True
   \<longleftrightarrow> (\<exists>t. last_operation_time c (get_operation_key p a) = Some t
            \<and> clock w (ticks w) - t < 30)"
  by (simp add: spec_power_operation_def small_defs Let_def case_prod_beta split: option.splits)

lemma spec_last_operation_time:
  "last_operation_time (fst (snd (spec_power_operation a p c w))) =
     (if rate_limited (fst (spec_power_operation a p c w)) = Some True
      then last_operation_time c
      else (last_operation_time c)(get_operation_key p a \<mapsto>
              clock w (ticks (snd (is_port_operation_rate_limited p a c w)))))"
  by (simp add: spec_power_operation_def small_defs Let_def case_prod_beta split: option.splits)

lemma spec_rejected_controller:
  "rate_limited (fst (spec_power_operation a p c w)) = Some True
   \<Longrightarrow> fst (snd (spec_power_operation a p c w)) = c"
  by (simp add: spec_power_operation_def small_defs Let_def case_prod_beta split: option.splits if_splits)

lemma exec_fst_cong:
  "config c' = config c \<Longrightarrow> network w' (sent w') = network w (sent w)
   \<Longrightarrow> wall w' (wall_reads w') = wall w (wall_reads w)
   \<Longrightarrow> fst (execute_power_cycle p a c' w') = fst (execute_power_cycle p a c w)"
  by (simp add: execute_power_cycle_def make_request_def datetime_now_isoformat_def Let_def
      emit_def actions_endpoint_def split: http_outcome.splits)

lemma exec_fst_ticks [simp]:
  "fst (execute_power_cycle p a c (w\<lparr>ticks := n\<rparr>)) = fst (execute_power_cycle p a c w)"
  by (rule exec_fst_cong) simp_all

lemma exec_fst_recorded [simp]:
  "fst (execute_power_cycle p a (c\<lparr>last_operation_time := m\<rparr>) w)
     = fst (execute_power_cycle p a c w)"
  by (rule exec_fst_cong) simp_all

lemma actions_endpoint_recorded [simp]:
  "actions_endpoint (c\<lparr>last_operation_time := m\<rparr>) p = actions_endpoint c p"
  by (simp add: actions_endpoint_def)

subsection \<open>The two paths of an accepted request\<close>

lemma spec_queue_or_execute:
  assumes "\<not> fst (is_port_operation_rate_limited p a c w)"
    and "k = ticks (snd (is_port_operation_rate_limited p a c w))"
  shows "((last_unifi_operation c p = None
            \<or> (\<exists>t. last_unifi_operation c p = Some t \<and> clock w (k + 1) - t \<ge> 10))
          \<longrightarrow> fst (spec_power_operation a p c w) = fst (execute_power_cycle p a c w)
              \<and> trace (snd (snd (spec_power_operation a p c w)))
                  = trace w @ [Post (base_url (config c) @ ''/'' @ actions_endpoint c p)
                                 ''POWER_CYCLE'']
              \<and> sent (snd (snd (spec_power_operation a p c w))) = sent w + 1
              \<and> operation_queue (fst (snd (spec_power_operation a p c w))) = operation_queue c)
       \<and> (last_unifi_operation c p = Some t \<and> clock w (k + 1) - t < 10
          \<longrightarrow> trace (snd (snd (spec_power_operation a p c w))) = trace w
              \<and> sent (snd (snd (spec_power_operation a p c w))) = sent w
              \<and> operation_queue (fst (snd (spec_power_operation a p c w)))
                  = operation_queue c @
                      [Some \<lparr>job_port = p, job_action = a,
                             job_delay = max 0 (10 - (clock w (k + 2) - t))\<rparr>]
              \<and> success (fst (spec_power_operation a p c w))
              \<and> status (fst (spec_power_operation a p c w)) = Some ''queued''
              \<and> queued_delay (fst (spec_power_operation a p c w)) = Some (max 0 (10 - (clock w (k + 2) - t))))"
  using assms
  by (simp add: spec_power_operation_def small_defs Let_def case_prod_beta exec_world
      split: option.splits)

subsection \<open>The three outcomes of a request, written out\<close>




section \<open>The claims\<close>

subsection \<open>C1: the rate limiter\<close>

lemma is_limited_cong:
  "last_operation_time c1 (get_operation_key p a) = last_operation_time c2 (get_operation_key p a)
   \<Longrightarrow> is_port_operation_rate_limited p a c1 w = is_port_operation_rate_limited p a c2 w"
  by (simp add: is_port_operation_rate_limited_def)

text \<open>
  C1. For a port \<open>p\<close> and either rate-limited operation (\<open>f\<close> with its label \<open>a\<close>), the
  request is rejected as rate-limited (\<^verbatim>\<open>success\<close> false, \<^verbatim>\<open>rate_limited\<close> true) exactly when
  the same (port, operation) pair has a recorded timestamp \<open>t\<close> and the clock, read by the
  check, is strictly less than 30 seconds after \<open>t\<close>. A whole request \<open>g\<close> for the other
  rate-limited operation on the same port, or for another port, and any PowerOn request,
  leaves the verdict of the check on \<open>(p, a)\<close> as it was.
\<close>

theorem rate_limit_decision:
  assumes "(f, a) \<in> limited_ops" and "(g, b) \<in> limited_ops"
  shows "((\<not> success (fst (f p c w)) \<and> rate_limited (fst (f p c w)) = Some True)
            \<longleftrightarrow> (\<exists>t. last_operation_time c (get_operation_key p a) = Some t
                     \<and> clock w (ticks w) - t < 30))
         \<and> (q \<noteq> p \<or> b \<noteq> a \<longrightarrow>
               is_port_operation_rate_limited p a (fst (snd (g q c v))) w
                 = is_port_operation_rate_limited p a c w)
         \<and> is_port_operation_rate_limited p a (fst (snd (power_on_port q c v))) w
             = is_port_operation_rate_limited p a c w"
proof (intro conjI impI)
  show "(\<not> success (fst (f p c w)) \<and> rate_limited (fst (f p c w)) = Some True)
          \<longleftrightarrow> (\<exists>t. last_operation_time c (get_operation_key p a) = Some t
                   \<and> clock w (ticks w) - t < 30)"
    using spec_rejected_iff [of a p c w] by (simp add: limited_ops_spec [OF assms(1)])
next
  assume "q \<noteq> p \<or> b \<noteq> a"
  then have ne: "get_operation_key q b \<noteq> get_operation_key p a"
    by (auto simp: get_operation_key_inj)
  have "last_operation_time (fst (snd (g q c v))) (get_operation_key p a)
          = last_operation_time c (get_operation_key p a)"
    using ne by (simp add: limited_ops_spec [OF assms(2)] spec_last_operation_time)
  then show "is_port_operation_rate_limited p a (fst (snd (g q c v))) w
               = is_port_operation_rate_limited p a c w"
    by (rule is_limited_cong)
next
  from assms(1) have "a \<noteq> ''power_on''"
    by (auto simp: limited_ops_def)
  then have "last_operation_time (fst (snd (power_on_port q c v))) (get_operation_key p a)
          = last_operation_time c (get_operation_key p a)"
    by (simp add: power_on_port_def record_port_operation_def time_time_def
        datetime_now_isoformat_def Let_def get_operation_key_inj)
  then show "is_port_operation_rate_limited p a (fst (snd (power_on_port q c v))) w
               = is_port_operation_rate_limited p a c w"
    by (rule is_limited_cong)
qed

theorem rate_limit_decision_witness:
  "(power_off_port, ''power_off'') \<in> limited_ops
   \<and> (power_cycle_port, ''power_cycle'') \<in> limited_ops
   \<and> ''power_cycle'' \<noteq> ''power_off''
   \<and> \<not> success (fst (power_off_port 3
          (init_controller\<lparr>last_operation_time := [get_operation_key 3 ''power_off'' \<mapsto> 100]\<rparr>)
          (ticking_world 110 0 (Status_code 200))))
   \<and> rate_limited (fst (power_off_port 3
          (init_controller\<lparr>last_operation_time := [get_operation_key 3 ''power_off'' \<mapsto> 100]\<rparr>)
          (ticking_world 110 0 (Status_code 200)))) = Some True
   \<and> is_port_operation_rate_limited 3 ''power_off''
        (fst (snd (power_cycle_port 3
          (init_controller\<lparr>last_operation_time := [get_operation_key 3 ''power_off'' \<mapsto> 100]\<rparr>)
          (ticking_world 110 0 (Status_code 200)))))
        (ticking_world 110 0 (Status_code 200))
      = is_port_operation_rate_limited 3 ''power_off''
        (init_controller\<lparr>last_operation_time := [get_operation_key 3 ''power_off'' \<mapsto> 100]\<rparr>)
        (ticking_world 110 0 (Status_code 200))"
proof -
  let ?c = "init_controller\<lparr>last_operation_time := [get_operation_key 3 ''power_off'' \<mapsto> 100]\<rparr>"
  let ?w = "ticking_world 110 0 (Status_code 200)"
  have h: "(power_off_port, ''power_off'') \<in> limited_ops"
    and g: "(power_cycle_port, ''power_cycle'') \<in> limited_ops"
    by (simp_all add: limited_ops_def)
  have ne: "(3::int) \<noteq> 3 \<or> ''power_cycle'' \<noteq> ''power_off''"
    by simp
  have r: "\<exists>t. last_operation_time ?c (get_operation_key 3 ''power_off'') = Some t
             \<and> clock ?w (ticks ?w) - t < 30"
    by (simp add: ticking_world_def)
  have ne': "''power_cycle'' \<noteq> ''power_off''"
    by simp
  from rate_limit_decision [OF h g, where p = 3 and q = 3 and c = ?c and w = ?w and v = ?w] r ne ne' h g
  show ?thesis by blast
qed

subsection \<open>C2: execute at once or queue\<close>

text \<open>
  C2. For either rate-limited operation, when the check does not reject the request
  (\<open>k\<close> is the number of clock reads made when the check returns, so the record reads
  the clock at \<open>k\<close>, the cooldown gate at \<open>k + 1\<close> and the delay computation at
  \<open>k + 2\<close>): if the port has no device-activity record, or the gate reads a clock at
  least 10 seconds after it, the device action is executed in the call (one POWER_CYCLE
  request to the port's endpoint, the answer is that of \<^verbatim>\<open>_execute_power_cycle\<close>, nothing is
  queued); if the port has the device-activity record \<open>t\<close> and the gate reads a clock less
  than 10 seconds after it, no request is sent, the job \<open>{p, op, delay}\<close> with
  \<open>delay = max 0 (10 - (now - t))\<close> is appended to the queue, \<open>now\<close> being the clock read
  of the delay computation, and the answer is \<^verbatim>\<open>success\<close> true, status \<^verbatim>\<open>queued\<close>, with that
  same delay.
\<close>

theorem queue_or_execute:
  assumes "(f, a) \<in> limited_ops"
    and "\<not> fst (is_port_operation_rate_limited p a c w)"
    and "k = ticks (snd (is_port_operation_rate_limited p a c w))"
  shows "((last_unifi_operation c p = None
            \<or> (\<exists>t. last_unifi_operation c p = Some t \<and> clock w (k + 1) - t \<ge> 10))
          \<longrightarrow> fst (f p c w) = fst (execute_power_cycle p a c w)
              \<and> trace (snd (snd (f p c w)))
                  = trace w @ [Post (base_url (config c) @ ''/'' @ actions_endpoint c p)
                                 ''POWER_CYCLE'']
              \<and> sent (snd (snd (f p c w))) = sent w + 1
              \<and> operation_queue (fst (snd (f p c w))) = operation_queue c)
       \<and> (last_unifi_operation c p = Some t \<and> clock w (k + 1) - t < 10
          \<longrightarrow> trace (snd (snd (f p c w))) = trace w
              \<and> sent (snd (snd (f p c w))) = sent w
              \<and> operation_queue (fst (snd (f p c w)))
                  = operation_queue c @
                      [Some \<lparr>job_port = p, job_action = a,
                             job_delay = max 0 (10 - (clock w (k + 2) - t))\<rparr>]
              \<and> success (fst (f p c w))
              \<and> status (fst (f p c w)) = Some ''queued''
              \<and> queued_delay (fst (f p c w)) = Some (max 0 (10 - (clock w (k + 2) - t))))"
  using spec_queue_or_execute [OF assms(2,3), of t]
  by (simp add: limited_ops_spec [OF assms(1)])

theorem queue_or_execute_witness:
  "(power_cycle_port, ''power_cycle'') \<in> limited_ops
   \<and> \<not> fst (is_port_operation_rate_limited 3 ''power_cycle'' init_controller
              (ticking_world 100 1 (Status_code 200)))
   \<and> last_unifi_operation init_controller 3 = None
   \<and> sent (snd (snd (power_cycle_port 3 init_controller
              (ticking_world 100 1 (Status_code 200))))) = 1
   \<and> operation_queue (fst (snd (power_cycle_port 3 init_controller
              (ticking_world 100 1 (Status_code 200))))) = []
   \<and> \<not> fst (is_port_operation_rate_limited 3 ''power_cycle''
              (init_controller\<lparr>last_unifi_operation := [3 \<mapsto> 98]\<rparr>)
              (ticking_world 100 1 (Status_code 200)))
   \<and> last_unifi_operation (init_controller\<lparr>last_unifi_operation := [3 \<mapsto> 98]\<rparr>) 3 = Some 98
   \<and> clock (ticking_world 100 1 (Status_code 200)) 1 - 98 < 10
   \<and> status (fst (power_cycle_port 3 (init_controller\<lparr>last_unifi_operation := [3 \<mapsto> 98]\<rparr>)
              (ticking_world 100 1 (Status_code 200)))) = Some ''queued''
   \<and> queued_delay (fst (power_cycle_port 3 (init_controller\<lparr>last_unifi_operation := [3 \<mapsto> 98]\<rparr>)
              (ticking_world 100 1 (Status_code 200)))) = Some 6
   \<and> sent (snd (snd (power_cycle_port 3 (init_controller\<lparr>last_unifi_operation := [3 \<mapsto> 98]\<rparr>)
              (ticking_world 100 1 (Status_code 200))))) = 0"
proof -
  let ?w = "ticking_world 100 1 (Status_code 200)"
  let ?c = "init_controller\<lparr>last_unifi_operation := [3 \<mapsto> 98]\<rparr>"
  have h: "(power_cycle_port, ''power_cycle'') \<in> limited_ops"
    by (simp add: limited_ops_def)
  have l1: "is_port_operation_rate_limited 3 ''power_cycle'' init_controller ?w = (False, ?w)"
    by (simp add: is_port_operation_rate_limited_def init_controller_def)
  have l2: "is_port_operation_rate_limited 3 ''power_cycle'' ?c ?w = (False, ?w)"
    by (simp add: is_port_operation_rate_limited_def init_controller_def)
  have n1: "\<not> fst (is_port_operation_rate_limited 3 ''power_cycle'' init_controller ?w)"
    and n2: "\<not> fst (is_port_operation_rate_limited 3 ''power_cycle'' ?c ?w)"
    by (simp_all add: l1 l2)
  have k1: "0 = ticks (snd (is_port_operation_rate_limited 3 ''power_cycle'' init_controller ?w))"
    and k2: "0 = ticks (snd (is_port_operation_rate_limited 3 ''power_cycle'' ?c ?w))"
    by (simp_all add: l1 l2) (simp_all add: ticking_world_def)
  have d1: "last_unifi_operation init_controller 3 = None"
    by (simp add: init_controller_def)
  have d2: "last_unifi_operation ?c 3 = Some 98"
    by simp
  have g: "clock ?w 1 - 98 < 10" and g': "clock ?w (0 + 1) - 98 < 10"
    by (simp_all add: ticking_world_def)
  have v: "max 0 (10 - (clock ?w (0 + 2) - 98)) = 6"
    by (simp add: ticking_world_def)
  have s0: "sent ?w = 0"
    by (simp add: ticking_world_def)
  have q0: "operation_queue init_controller = []"
    by (simp add: init_controller_def)
  from queue_or_execute [OF h n1 k1, of 0] d1
  have a: "sent (snd (snd (power_cycle_port 3 init_controller ?w))) = sent ?w + 1
      \<and> operation_queue (fst (snd (power_cycle_port 3 init_controller ?w)))
          = operation_queue init_controller"
    by blast
  from queue_or_execute [OF h n2 k2, of 98] d2 g'
  have b: "status (fst (power_cycle_port 3 ?c ?w)) = Some ''queued''
      \<and> queued_delay (fst (power_cycle_port 3 ?c ?w)) = Some (max 0 (10 - (clock ?w (0 + 2) - 98)))
      \<and> sent (snd (snd (power_cycle_port 3 ?c ?w))) = sent ?w"
    by blast
  from a b show ?thesis
    unfolding v s0 q0 using h n1 n2 d1 d2 g by simp
qed

subsection \<open>C3: PowerOn\<close>

text \<open>
  C3. \<^verbatim>\<open>power_on_port\<close> always answers \<^verbatim>\<open>success\<close> true with the status
  \<^verbatim>\<open>no_action_needed\<close>; its answer has no key \<^verbatim>\<open>rate_limited\<close>; it sends no request (the
  trace and the count of requests sent are as before); and it records the clock value
  under the key of (p, \<^verbatim>\<open>power_on\<close>), leaving the device-activity map and the queue alone.
\<close>

theorem power_on_port_no_action:
  "success (fst (power_on_port p c w))
   \<and> status (fst (power_on_port p c w)) = Some ''no_action_needed''
   \<and> rate_limited (fst (power_on_port p c w)) = None
   \<and> trace (snd (snd (power_on_port p c w))) = trace w
   \<and> sent (snd (snd (power_on_port p c w))) = sent w
   \<and> last_operation_time (fst (snd (power_on_port p c w)))
       = (last_operation_time c)(get_operation_key p ''power_on'' \<mapsto> clock w (ticks w))
   \<and> last_unifi_operation (fst (snd (power_on_port p c w))) = last_unifi_operation c
   \<and> operation_queue (fst (snd (power_on_port p c w))) = operation_queue c"
  by (simp add: power_on_port_def record_port_operation_def time_time_def
      datetime_now_isoformat_def Let_def)

subsection \<open>C4: status inference\<close>

lemma status_keys:
  "str_int p @ '':power_off'' = get_operation_key p ''power_off''"
  "str_int p @ '':power_on'' = get_operation_key p ''power_on''"
  by (simp_all add: get_operation_key_def)

text \<open>
  C4. The status of a port is the literal \<^verbatim>\<open>status: stopped\<close> when the timestamp recorded
  for (p, \<^verbatim>\<open>power_off\<close>) is strictly greater than the one recorded for (p, \<^verbatim>\<open>power_on\<close>),
  and the literal \<^verbatim>\<open>status: running\<close> otherwise; a missing record is read as 0, as
  \<^verbatim>\<open>.get(key, 0)\<close> does, so with neither recorded the status is running. The query
  leaves the controller unchanged, sends no request and does not read the clock of
  \<^verbatim>\<open>time.time()\<close>; two controllers with the same two records give the same status in any
  two worlds.
\<close>

theorem get_port_status_inference:
  "status (fst (get_port_status p c w)) =
     Some (if (case last_operation_time c (get_operation_key p ''power_off'') of
                 None \<Rightarrow> 0 | Some t \<Rightarrow> t)
              > (case last_operation_time c (get_operation_key p ''power_on'') of
                   None \<Rightarrow> 0 | Some t \<Rightarrow> t)
           then ''status: stopped'' else ''status: running'')
   \<and> fst (snd (get_port_status p c w)) = c
   \<and> trace (snd (snd (get_port_status p c w))) = trace w
   \<and> sent (snd (snd (get_port_status p c w))) = sent w
   \<and> ticks (snd (snd (get_port_status p c w))) = ticks w
   \<and> (last_operation_time c' (get_operation_key p ''power_off'')
         = last_operation_time c (get_operation_key p ''power_off'')
       \<and> last_operation_time c' (get_operation_key p ''power_on'')
         = last_operation_time c (get_operation_key p ''power_on'')
       \<longrightarrow> status (fst (get_port_status p c' w')) = status (fst (get_port_status p c w)))"
  by (simp add: get_port_status_def status_keys datetime_now_isoformat_def Let_def)

theorem get_port_status_inference_witness:
  "last_operation_time
      (init_controller\<lparr>last_operation_time := [get_operation_key 3 ''power_off'' \<mapsto> 50],
                        last_unifi_operation := [3 \<mapsto> 50]\<rparr>)
      (get_operation_key 3 ''power_off'')
    = last_operation_time
      (init_controller\<lparr>last_operation_time := [get_operation_key 3 ''power_off'' \<mapsto> 50]\<rparr>)
      (get_operation_key 3 ''power_off'')
   \<and> last_operation_time
      (init_controller\<lparr>last_operation_time := [get_operation_key 3 ''power_off'' \<mapsto> 50],
                        last_unifi_operation := [3 \<mapsto> 50]\<rparr>)
      (get_operation_key 3 ''power_on'')
    = last_operation_time
      (init_controller\<lparr>last_operation_time := [get_operation_key 3 ''power_off'' \<mapsto> 50]\<rparr>)
      (get_operation_key 3 ''power_on'')
   \<and> status (fst (get_port_status 3
        (init_controller\<lparr>last_operation_time := [get_operation_key 3 ''power_off'' \<mapsto> 50],
                          last_unifi_operation := [3 \<mapsto> 50]\<rparr>)
        (ticking_world 60 1 (Raised ''timeout'')))) = Some ''status: stopped''
   \<and> status (fst (get_port_status 3
        (init_controller\<lparr>last_operation_time := [get_operation_key 3 ''power_off'' \<mapsto> 50]\<rparr>)
        (ticking_world 70 0 (Status_code 200)))) = Some ''status: stopped''"
  using get_port_status_inference [of 3
      "init_controller\<lparr>last_operation_time := [get_operation_key 3 ''power_off'' \<mapsto> 50]\<rparr>"
      "ticking_world 70 0 (Status_code 200)"
      "init_controller\<lparr>last_operation_time := [get_operation_key 3 ''power_off'' \<mapsto> 50],
                        last_unifi_operation := [3 \<mapsto> 50]\<rparr>"
      "ticking_world 60 1 (Raised ''timeout'')"]
  by (simp add: get_operation_key_inj)

subsection \<open>C6: a rejected request changes nothing, an accepted one records once\<close>

text \<open>
  C6. For either rate-limited operation: a request rejected as rate-limited returns the
  controller exactly as it was (both maps and the queue). A request that is not rejected
  leaves the operation-record map with exactly one change, the entry of (p, op), set to the
  clock value read right after the check; this holds on every later path, whether the
  device call is made at once or queued, and whatever the network answers.
\<close>

theorem record_once_per_accepted_request:
  assumes "(f, a) \<in> limited_ops"
  shows "(rate_limited (fst (f p c w)) = Some True \<longrightarrow> fst (snd (f p c w)) = c)
       \<and> (rate_limited (fst (f p c w)) \<noteq> Some True \<longrightarrow>
            last_operation_time (fst (snd (f p c w)))
              = (last_operation_time c)(get_operation_key p a \<mapsto>
                   clock w (ticks (snd (is_port_operation_rate_limited p a c w)))))"
  by (simp add: limited_ops_spec [OF assms] spec_last_operation_time spec_rejected_controller)

theorem record_once_per_accepted_request_witness:
  "(power_off_port, ''power_off'') \<in> limited_ops
   \<and> rate_limited (fst (power_off_port 3
        (init_controller\<lparr>last_operation_time := [get_operation_key 3 ''power_off'' \<mapsto> 100]\<rparr>)
        (ticking_world 110 0 (Status_code 200)))) = Some True
   \<and> fst (snd (power_off_port 3
        (init_controller\<lparr>last_operation_time := [get_operation_key 3 ''power_off'' \<mapsto> 100]\<rparr>)
        (ticking_world 110 0 (Status_code 200))))
      = init_controller\<lparr>last_operation_time := [get_operation_key 3 ''power_off'' \<mapsto> 100]\<rparr>
   \<and> rate_limited (fst (power_off_port 3 init_controller (ticking_world 110 1 (Status_code 500))))
        \<noteq> Some True
   \<and> last_operation_time (fst (snd (power_off_port 3 init_controller
        (ticking_world 110 1 (Status_code 500)))))
      = [get_operation_key 3 ''power_off'' \<mapsto> 110]"
proof -
  let ?c = "init_controller\<lparr>last_operation_time := [get_operation_key 3 ''power_off'' \<mapsto> 100]\<rparr>"
  let ?w = "ticking_world 110 0 (Status_code 200)"
  let ?v = "ticking_world 110 1 (Status_code 500)"
  have h: "(power_off_port, ''power_off'') \<in> limited_ops"
    by (simp add: limited_ops_def)
  have r: "rate_limited (fst (power_off_port 3 ?c ?w)) = Some True"
    by (simp add: power_off_port_spec spec_rate_limited_iff ticking_world_def)
  have n: "rate_limited (fst (power_off_port 3 init_controller ?v)) \<noteq> Some True"
    by (simp add: power_off_port_spec spec_rate_limited_iff init_controller_def)
  have k: "clock ?v (ticks (snd (is_port_operation_rate_limited 3 ''power_off'' init_controller ?v)))
             = 110"
    by (simp add: is_port_operation_rate_limited_def init_controller_def ticking_world_def)
  from record_once_per_accepted_request [OF h, of 3 ?c ?w] r
  have 1: "fst (snd (power_off_port 3 ?c ?w)) = ?c" by blast
  from record_once_per_accepted_request [OF h, of 3 init_controller ?v] n
  have "last_operation_time (fst (snd (power_off_port 3 init_controller ?v)))
          = (last_operation_time init_controller)(get_operation_key 3 ''power_off'' \<mapsto>
               clock ?v (ticks (snd (is_port_operation_rate_limited 3 ''power_off'' init_controller ?v))))"
    by blast
  then have 2: "last_operation_time (fst (snd (power_off_port 3 init_controller ?v)))
          = [get_operation_key 3 ''power_off'' \<mapsto> 110]"
    by (simp only: k) (simp add: init_controller_def)
  from h r n 1 2 show ?thesis by blast
qed

subsection \<open>C5: the retry-after value\<close>

lemma str_int_small: "str_int 0 = ''0''" "str_int (- 1) = ''-1''"
  by (simp_all add: str_int_def str_nat.simps digit_char_def char_of_def bit_iff_odd)

text \<open>
  C5. The claim is that a request rejected as rate-limited carries \<^verbatim>\<open>retry_after\<close> in
  (0, 30]. The code computes \<^verbatim>\<open>int(time_remaining)\<close>, which truncates, and does not clamp
  the result as the queued path does (\<^verbatim>\<open>max(0, int(delay))\<close>). With PowerOff on port 1
  recorded at 1000 and every clock read returning 1029.5, the request is rejected with
  \<^verbatim>\<open>retry_after\<close> 0 and the text "Please wait 0 seconds". With the check reading 1029.9
  and the response reading 1031.5, it is rejected with \<^verbatim>\<open>retry_after\<close> -1.
\<close>

theorem retry_after_zero_failing_input:
  "rate_limited (fst (power_off_port 1
      (init_controller\<lparr>last_operation_time := [get_operation_key 1 ''power_off'' \<mapsto> 1000]\<rparr>)
      (ticking_world (2059 / 2) 0 (Status_code 200)))) = Some True
   \<and> \<not> success (fst (power_off_port 1
      (init_controller\<lparr>last_operation_time := [get_operation_key 1 ''power_off'' \<mapsto> 1000]\<rparr>)
      (ticking_world (2059 / 2) 0 (Status_code 200))))
   \<and> retry_after (fst (power_off_port 1
      (init_controller\<lparr>last_operation_time := [get_operation_key 1 ''power_off'' \<mapsto> 1000]\<rparr>)
      (ticking_world (2059 / 2) 0 (Status_code 200)))) = Some 0
   \<and> error (fst (power_off_port 1
      (init_controller\<lparr>last_operation_time := [get_operation_key 1 ''power_off'' \<mapsto> 1000]\<rparr>)
      (ticking_world (2059 / 2) 0 (Status_code 200))))
      = Some ''Rate limited. Please wait 0 seconds before next power_off operation''
   \<and> rate_limited (fst (power_off_port 1
      (init_controller\<lparr>last_operation_time := [get_operation_key 1 ''power_off'' \<mapsto> 1000]\<rparr>)
      (ticking_world (10299 / 10) (8 / 5) (Status_code 200)))) = Some True
   \<and> retry_after (fst (power_off_port 1
      (init_controller\<lparr>last_operation_time := [get_operation_key 1 ''power_off'' \<mapsto> 1000]\<rparr>)
      (ticking_world (10299 / 10) (8 / 5) (Status_code 200)))) = Some (- 1)"
  by (simp add: power_off_port_spec spec_power_operation_def small_defs Let_def case_prod_beta
      int_of_float_def ticking_world_def rate_limit_error_def str_int_small)

subsection \<open>C10: the delay of a queued job\<close>

text \<open>
  C10 as stated fails: the cooldown gate and the delay computation read the clock
  separately. With device activity at 100, the gate reading 109.9995 (less than 10 seconds
  after it) and the delay computation reading 110.0005, the clamp \<^verbatim>\<open>max(0, delay)\<close> fires
  and a job with delay 0 is queued.
\<close>

theorem zero_delay_counterexample:
  "status (fst (power_cycle_port 3 (init_controller\<lparr>last_unifi_operation := [3 \<mapsto> 100]\<rparr>)
      (ticking_world (219997 / 2000) (1 / 1000) (Status_code 200)))) = Some ''queued''
   \<and> queued_delay (fst (power_cycle_port 3 (init_controller\<lparr>last_unifi_operation := [3 \<mapsto> 100]\<rparr>)
      (ticking_world (219997 / 2000) (1 / 1000) (Status_code 200)))) = Some 0
   \<and> operation_queue (fst (snd (power_cycle_port 3
      (init_controller\<lparr>last_unifi_operation := [3 \<mapsto> 100]\<rparr>)
      (ticking_world (219997 / 2000) (1 / 1000) (Status_code 200)))))
      = [Some \<lparr>job_port = 3, job_action = ''power_cycle'', job_delay = 0\<rparr>]"
  by (simp add: power_cycle_port_spec spec_power_operation_def small_defs Let_def case_prod_beta
      init_controller_def ticking_world_def)

text \<open>
  C10, amended. Whenever either rate-limited operation answers \<^verbatim>\<open>queued\<close>, the port has a
  device-activity record \<open>t\<close>, the gate read the clock less than 10 seconds after \<open>t\<close>, and
  the delay in the job and in the answer is \<open>max 0 (10 - (now - t))\<close> with \<open>now\<close> the later
  clock read of the delay computation. That delay is at least 0; it is at most 10 when
  \<open>now\<close> is not before \<open>t\<close>; it is strictly positive exactly when \<open>now\<close> is still less
  than 10 seconds after \<open>t\<close>, in particular when the two reads return the same value.
\<close>

theorem queued_delay_bounds:
  assumes "(f, a) \<in> limited_ops" and "status (fst (f p c w)) = Some ''queued''"
    and "k = ticks (snd (is_port_operation_rate_limited p a c w))"
  shows "\<exists>t. last_unifi_operation c p = Some t
           \<and> clock w (k + 1) - t < 10
           \<and> queued_delay (fst (f p c w)) = Some (max 0 (10 - (clock w (k + 2) - t)))
           \<and> operation_queue (fst (snd (f p c w)))
               = operation_queue c @
                   [Some \<lparr>job_port = p, job_action = a,
                          job_delay = max 0 (10 - (clock w (k + 2) - t))\<rparr>]
           \<and> 0 \<le> max 0 (10 - (clock w (k + 2) - t))
           \<and> (t \<le> clock w (k + 2) \<longrightarrow> max 0 (10 - (clock w (k + 2) - t)) \<le> 10)
           \<and> (0 < max 0 (10 - (clock w (k + 2) - t)) \<longleftrightarrow> clock w (k + 2) - t < 10)
           \<and> (clock w (k + 2) = clock w (k + 1) \<longrightarrow> 0 < max 0 (10 - (clock w (k + 2) - t)))"
proof -
  have q: "status (fst (spec_power_operation a p c w)) = Some ''queued''"
    using assms(2) by (simp add: limited_ops_spec [OF assms(1)])
  have n: "\<not> fst (is_port_operation_rate_limited p a c w)"
    using q
    by (auto simp: spec_power_operation_def get_rate_limit_response_def time_time_def
        datetime_now_isoformat_def Let_def case_prod_beta split: if_splits)
  from q n obtain t where t: "last_unifi_operation c p = Some t"
    and g: "clock w (k + 1) - t < 10"
    using exec_status [of p a] assms(3)
    by (auto simp: spec_power_operation_def small_defs Let_def case_prod_beta
        split: option.splits if_splits)
  from spec_queue_or_execute [OF n assms(3), of t] t g
  have "queued_delay (fst (f p c w)) = Some (max 0 (10 - (clock w (k + 2) - t)))
      \<and> operation_queue (fst (snd (f p c w)))
               = operation_queue c @
                   [Some \<lparr>job_port = p, job_action = a,
                          job_delay = max 0 (10 - (clock w (k + 2) - t))\<rparr>]"
    by (simp add: limited_ops_spec [OF assms(1)])
  moreover have "0 \<le> max 0 (10 - (clock w (k + 2) - t))
           \<and> (t \<le> clock w (k + 2) \<longrightarrow> max 0 (10 - (clock w (k + 2) - t)) \<le> 10)
           \<and> (0 < max 0 (10 - (clock w (k + 2) - t)) \<longleftrightarrow> clock w (k + 2) - t < 10)
           \<and> (clock w (k + 2) = clock w (k + 1) \<longrightarrow> 0 < max 0 (10 - (clock w (k + 2) - t)))"
    using g by auto
  ultimately show ?thesis using t g by blast
qed

theorem queued_delay_bounds_witness:
  "(power_cycle_port, ''power_cycle'') \<in> limited_ops
   \<and> status (fst (power_cycle_port 3 (init_controller\<lparr>last_unifi_operation := [3 \<mapsto> 98]\<rparr>)
        (ticking_world 100 1 (Status_code 200)))) = Some ''queued''
   \<and> 0 = ticks (snd (is_port_operation_rate_limited 3 ''power_cycle''
        (init_controller\<lparr>last_unifi_operation := [3 \<mapsto> 98]\<rparr>)
        (ticking_world 100 1 (Status_code 200))))
   \<and> (98::real) \<le> clock (ticking_world 100 1 (Status_code 200)) (0 + 2)
   \<and> queued_delay (fst (power_cycle_port 3 (init_controller\<lparr>last_unifi_operation := [3 \<mapsto> 98]\<rparr>)
        (ticking_world 100 1 (Status_code 200)))) = Some 6"
proof -
  let ?c = "init_controller\<lparr>last_unifi_operation := [3 \<mapsto> 98]\<rparr>"
  let ?w = "ticking_world 100 1 (Status_code 200)"
  have h: "(power_cycle_port, ''power_cycle'') \<in> limited_ops"
    by (simp add: limited_ops_def)
  have q: "status (fst (power_cycle_port 3 ?c ?w)) = Some ''queued''"
    by (simp add: power_cycle_port_spec spec_power_operation_def small_defs Let_def
        case_prod_beta init_controller_def ticking_world_def)
  have k: "0 = ticks (snd (is_port_operation_rate_limited 3 ''power_cycle'' ?c ?w))"
    by (simp add: is_port_operation_rate_limited_def init_controller_def ticking_world_def)
  have c: "(98::real) \<le> clock ?w (0 + 2)"
    by (simp add: ticking_world_def)
  have v: "max 0 (10 - (clock ?w (0 + 2) - 98)) = 6"
    by (simp add: ticking_world_def)
  from queued_delay_bounds [OF h q k] obtain t
    where t: "last_unifi_operation ?c 3 = Some t"
      and a: "queued_delay (fst (power_cycle_port 3 ?c ?w))
                = Some (max 0 (10 - (clock ?w (0 + 2) - t)))"
    by blast
  from t have "t = 98" by simp
  with a v have "queued_delay (fst (power_cycle_port 3 ?c ?w)) = Some 6" by simp
  with h q k c show ?thesis by blast
qed

subsection \<open>C7: the device-activity timestamp\<close>

text \<open>
  C7. A call that reaches the device, from a request (the answer is neither rate-limited
  nor queued) or from a pass of the worker over a job with a delay of at least 0, sends
  exactly one request, and leaves the device-activity map either unchanged or with the one
  entry of its port set to the clock read after the call: the latter exactly when the
  network answered 200, which is when the call succeeded. On a failure in the worker the
  last line of the trace is a warning of the log, the job is gone from the queue, and the
  pass ends as any other (\<open>Processed\<close>): nothing is returned to a caller and nothing is
  queued again.
\<close>

theorem device_activity_update:
  assumes "(f, a) \<in> limited_ops"
  shows "(rate_limited (fst (f p c w)) \<noteq> Some True \<and> status (fst (f p c w)) \<noteq> Some ''queued''
          \<longrightarrow> sent (snd (snd (f p c w))) = sent w + 1
              \<and> (success (fst (f p c w)) \<longleftrightarrow> network w (sent w) = Status_code 200)
              \<and> last_unifi_operation (fst (snd (f p c w)))
                  = (if network w (sent w) = Status_code 200
                     then (last_unifi_operation c)(p \<mapsto>
                            clock w (ticks (snd (snd (f p c w))) - 1))
                     else last_unifi_operation c)
              \<and> operation_queue (fst (snd (f p c w))) = operation_queue c)
       \<and> (operation_queue c = Some j # q \<and> 0 \<le> job_delay j
          \<longrightarrow> fst (queue_worker_pass c w) = Processed
              \<and> operation_queue (fst (snd (queue_worker_pass c w))) = q
              \<and> sent (snd (snd (queue_worker_pass c w))) = sent w + 1
              \<and> last_operation_time (fst (snd (queue_worker_pass c w))) = last_operation_time c
              \<and> last_unifi_operation (fst (snd (queue_worker_pass c w)))
                  = (if network w (sent w) = Status_code 200
                     then (last_unifi_operation c)(job_port j \<mapsto> clock w (ticks w))
                     else last_unifi_operation c)
              \<and> (network w (sent w) \<noteq> Status_code 200
                  \<longrightarrow> (\<exists>m. last (trace (snd (snd (queue_worker_pass c w)))) = Log_warning m)))"
proof (intro conjI impI)
  assume "rate_limited (fst (f p c w)) \<noteq> Some True \<and> status (fst (f p c w)) \<noteq> Some ''queued''"
  then have "rate_limited (fst (spec_power_operation a p c w)) \<noteq> Some True"
    and "status (fst (spec_power_operation a p c w)) \<noteq> Some ''queued''"
    by (simp_all add: limited_ops_spec [OF assms])
  then have "sent (snd (snd (spec_power_operation a p c w))) = sent w + 1
      \<and> (success (fst (spec_power_operation a p c w)) \<longleftrightarrow> network w (sent w) = Status_code 200)
      \<and> last_unifi_operation (fst (snd (spec_power_operation a p c w)))
          = (if network w (sent w) = Status_code 200
             then (last_unifi_operation c)(p \<mapsto>
                    clock w (ticks (snd (snd (spec_power_operation a p c w))) - 1))
             else last_unifi_operation c)
      \<and> operation_queue (fst (snd (spec_power_operation a p c w))) = operation_queue c"
    by (simp add: spec_power_operation_def small_defs Let_def case_prod_beta exec_world
        exec_success split: option.splits if_splits)
  then show "sent (snd (snd (f p c w))) = sent w + 1"
    and "success (fst (f p c w)) \<longleftrightarrow> network w (sent w) = Status_code 200"
    and "last_unifi_operation (fst (snd (f p c w)))
                  = (if network w (sent w) = Status_code 200
                     then (last_unifi_operation c)(p \<mapsto>
                            clock w (ticks (snd (snd (f p c w))) - 1))
                     else last_unifi_operation c)"
    and "operation_queue (fst (snd (f p c w))) = operation_queue c"
    by (simp_all add: limited_ops_spec [OF assms])
next
  assume j: "operation_queue c = Some j # q \<and> 0 \<le> job_delay j"
  then have w: "fst (queue_worker_pass c w) = Processed
              \<and> operation_queue (fst (snd (queue_worker_pass c w))) = q
              \<and> sent (snd (snd (queue_worker_pass c w))) = sent w + 1
              \<and> last_operation_time (fst (snd (queue_worker_pass c w))) = last_operation_time c
              \<and> last_unifi_operation (fst (snd (queue_worker_pass c w)))
                  = (if network w (sent w) = Status_code 200
                     then (last_unifi_operation c)(job_port j \<mapsto> clock w (ticks w))
                     else last_unifi_operation c)
              \<and> (network w (sent w) \<noteq> Status_code 200
                  \<longrightarrow> (\<exists>m. last (trace (snd (snd (queue_worker_pass c w)))) = Log_warning m))"
    by (simp add: queue_worker_pass_def Let_def case_prod_beta exec_world exec_success
        time_time_def emit_def)
  from w show "fst (queue_worker_pass c w) = Processed" by blast
  from w show "operation_queue (fst (snd (queue_worker_pass c w))) = q" by blast
  from w show "sent (snd (snd (queue_worker_pass c w))) = sent w + 1" by blast
  from w show "last_operation_time (fst (snd (queue_worker_pass c w))) = last_operation_time c"
    by blast
  from w show "last_unifi_operation (fst (snd (queue_worker_pass c w)))
                  = (if network w (sent w) = Status_code 200
                     then (last_unifi_operation c)(job_port j \<mapsto> clock w (ticks w))
                     else last_unifi_operation c)" by blast
  assume "network w (sent w) \<noteq> Status_code 200"
  with w show "\<exists>m. last (trace (snd (snd (queue_worker_pass c w)))) = Log_warning m" by blast
qed

theorem device_activity_update_witness:
  "(power_off_port, ''power_off'') \<in> limited_ops
   \<and> rate_limited (fst (power_off_port 3 init_controller (ticking_world 100 1 (Status_code 200))))
        \<noteq> Some True
   \<and> status (fst (power_off_port 3 init_controller (ticking_world 100 1 (Status_code 200))))
        \<noteq> Some ''queued''
   \<and> last_unifi_operation (fst (snd (power_off_port 3 init_controller
        (ticking_world 100 1 (Status_code 200))))) = [3 \<mapsto> 101]
   \<and> operation_queue (init_controller\<lparr>operation_queue :=
          [Some \<lparr>job_port = 3, job_action = ''power_off'', job_delay = 6\<rparr>]\<rparr>)
        = Some \<lparr>job_port = 3, job_action = ''power_off'', job_delay = 6\<rparr> # []
   \<and> 0 \<le> job_delay \<lparr>job_port = 3, job_action = ''power_off'', job_delay = 6\<rparr>
   \<and> network (ticking_world 100 1 (Raised ''timed out''))
         (sent (ticking_world 100 1 (Raised ''timed out''))) \<noteq> Status_code 200
   \<and> last_unifi_operation (fst (snd (queue_worker_pass
        (init_controller\<lparr>operation_queue :=
          [Some \<lparr>job_port = 3, job_action = ''power_off'', job_delay = 6\<rparr>]\<rparr>)
        (ticking_world 100 1 (Raised ''timed out'')))))
      = last_unifi_operation init_controller
   \<and> operation_queue (fst (snd (queue_worker_pass
        (init_controller\<lparr>operation_queue :=
          [Some \<lparr>job_port = 3, job_action = ''power_off'', job_delay = 6\<rparr>]\<rparr>)
        (ticking_world 100 1 (Raised ''timed out''))))) = []
   \<and> (\<exists>m. last (trace (snd (snd (queue_worker_pass
        (init_controller\<lparr>operation_queue :=
          [Some \<lparr>job_port = 3, job_action = ''power_off'', job_delay = 6\<rparr>]\<rparr>)
        (ticking_world 100 1 (Raised ''timed out'')))))) = Log_warning m)"
proof -
  let ?w = "ticking_world 100 1 (Status_code 200)"
  let ?v = "ticking_world 100 1 (Raised ''timed out'')"
  let ?j = "\<lparr>job_port = 3, job_action = ''power_off'', job_delay = 6\<rparr>"
  let ?c = "init_controller\<lparr>operation_queue := [Some ?j]\<rparr>"
  have h: "(power_off_port, ''power_off'') \<in> limited_ops"
    by (simp add: limited_ops_def)
  have r: "rate_limited (fst (power_off_port 3 init_controller ?w)) \<noteq> Some True"
    by (simp add: power_off_port_spec spec_rate_limited_iff init_controller_def)
  have s: "status (fst (power_off_port 3 init_controller ?w)) \<noteq> Some ''queued''"
    by (simp add: power_off_port_spec spec_power_operation_def small_defs Let_def
        case_prod_beta init_controller_def exec_status)
  have n: "network ?w (sent ?w) = Status_code 200"
    by (simp add: ticking_world_def)
  have k: "clock ?w (ticks (snd (snd (power_off_port 3 init_controller ?w))) - 1) = 101"
    by (simp add: power_off_port_spec spec_power_operation_def small_defs Let_def
        case_prod_beta init_controller_def exec_world exec_success n)
       (simp add: ticking_world_def)
  have e: "last_unifi_operation init_controller = Map.empty"
    by (simp add: init_controller_def)
  from device_activity_update [OF h, of 3 init_controller ?w] r s
  have "last_unifi_operation (fst (snd (power_off_port 3 init_controller ?w)))
          = (if network ?w (sent ?w) = Status_code 200
             then (last_unifi_operation init_controller)(3 \<mapsto>
                    clock ?w (ticks (snd (snd (power_off_port 3 init_controller ?w))) - 1))
             else last_unifi_operation init_controller)"
    by blast
  then have 1: "last_unifi_operation (fst (snd (power_off_port 3 init_controller ?w))) = [3 \<mapsto> 101]"
    by (simp only: n k e) simp
  have q: "operation_queue ?c = Some ?j # []" and d: "0 \<le> job_delay ?j"
    by simp_all
  have f: "network ?v (sent ?v) \<noteq> Status_code 200"
    by (simp add: ticking_world_def)
  have u: "last_unifi_operation ?c = last_unifi_operation init_controller"
    by simp
  from device_activity_update [OF h, where c = ?c and j = ?j and q = "[]" and w = ?v] q d f
  have "last_unifi_operation (fst (snd (queue_worker_pass ?c ?v))) = last_unifi_operation ?c
      \<and> operation_queue (fst (snd (queue_worker_pass ?c ?v))) = []
      \<and> (\<exists>m. last (trace (snd (snd (queue_worker_pass ?c ?v)))) = Log_warning m)"
    by simp
  with u have 2: "last_unifi_operation (fst (snd (queue_worker_pass ?c ?v)))
        = last_unifi_operation init_controller
      \<and> operation_queue (fst (snd (queue_worker_pass ?c ?v))) = []
      \<and> (\<exists>m. last (trace (snd (snd (queue_worker_pass ?c ?v)))) = Log_warning m)"
    by simp
  from h r s 1 q d f 2 show ?thesis by blast
qed

subsection \<open>C8: PowerOff and PowerCycle are one algorithm\<close>

lemma swap_label_cycle [simp]: "swap_label b = ''power_cycle'' \<longleftrightarrow> b = ''power_off''"
  by (simp add: swap_label_def)

lemma swap_label_off [simp]: "swap_label ''power_off'' = ''power_cycle''"
  by (simp add: swap_label_def)







subsection \<open>C9: two requests at the same time\<close>

text \<open>
  A thread that runs its two steps with no other step in between decides as the request
  of the source does, and leaves the same records.
\<close>

lemma limiter_steps_are_the_request:
  "limiter_step p a Arrived c w = (s1, c1, w1) \<Longrightarrow> limiter_step p a s1 c1 w1 = (s2, c2, w2)
   \<Longrightarrow> (s2 = Rejected \<longleftrightarrow> rate_limited (fst (spec_power_operation a p c w)) = Some True)
       \<and> (s2 = Accepted \<longleftrightarrow> rate_limited (fst (spec_power_operation a p c w)) \<noteq> Some True)
       \<and> last_operation_time c2
           = last_operation_time (fst (snd (spec_power_operation a p c w)))"
  by (auto simp: limiter_step_def spec_last_operation_time spec_rate_limited_iff small_defs Let_def
      case_prod_beta split: option.splits if_splits)

text \<open>
  C9 as stated fails: there is an interleaving of the check and the record of two requests
  for the same port and operation, arriving at the same clock value, in which both checks
  run before either record; both requests then see "not limited" and both are accepted.
\<close>

theorem both_accepted_counterexample:
  "fst (run_threads [False, True, False, True] 3 ''power_cycle''
         (Arrived, Arrived, init_controller, ticking_world 100 0 (Status_code 200))) = Accepted
   \<and> fst (snd (run_threads [False, True, False, True] 3 ''power_cycle''
         (Arrived, Arrived, init_controller, ticking_world 100 0 (Status_code 200)))) = Accepted"
  by (simp add: limiter_step_def small_defs Let_def case_prod_beta init_controller_def)

lemma run_serial_first:
  assumes "\<not> fst (is_port_operation_rate_limited p a c w)"
    and "clock w (ticks w) \<le> clock w (ticks w + 1)"
    and "clock w (ticks w + 1) \<le> clock w (ticks w + 2)"
    and "clock w (ticks w + 2) \<le> clock w (ticks w + 3)"
    and "clock w (ticks w + 3) - clock w (ticks w) \<le> 1 / 1000"
  shows "fst (run_threads [False, False, True, True] p a (Arrived, Arrived, c, w)) = Accepted"
    and "fst (snd (run_threads [False, False, True, True] p a (Arrived, Arrived, c, w))) = Rejected"
  using assms
  by (simp_all add: limiter_step_def small_defs Let_def case_prod_beta split: option.splits)

lemma run_serial_second:
  assumes "\<not> fst (is_port_operation_rate_limited p a c w)"
    and "clock w (ticks w) \<le> clock w (ticks w + 1)"
    and "clock w (ticks w + 1) \<le> clock w (ticks w + 2)"
    and "clock w (ticks w + 2) \<le> clock w (ticks w + 3)"
    and "clock w (ticks w + 3) - clock w (ticks w) \<le> 1 / 1000"
  shows "fst (run_threads [True, True, False, False] p a (Arrived, Arrived, c, w)) = Rejected"
    and "fst (snd (run_threads [True, True, False, False] p a (Arrived, Arrived, c, w))) = Accepted"
  using assms
  by (simp_all add: limiter_step_def small_defs Let_def case_prod_beta split: option.splits)

lemma run_interleaved:
  assumes "\<not> fst (is_port_operation_rate_limited p a c w)"
    and "clock w (ticks w) \<le> clock w (ticks w + 1)"
    and "sched \<in> {[False, True, False, True], [False, True, True, False],
                   [True, False, True, False], [True, False, False, True]}"
  shows "fst (run_threads sched p a (Arrived, Arrived, c, w)) = Accepted"
    and "fst (snd (run_threads sched p a (Arrived, Arrived, c, w))) = Accepted"
  using assms
  by (auto simp: limiter_step_def small_defs Let_def case_prod_beta split: option.splits)

text \<open>
  C9, amended. Take two requests for the same port and operation that is not limited when
  they arrive, with the clock reads of their steps in order and within one millisecond.
  If the check and the record of one request both run before the check of the other (a
  serial schedule), exactly one of the two is accepted and the other is rejected as
  rate-limited. The controller holds no lock: in each of the other four schedules both
  checks run before either record, and both requests are accepted.
\<close>

theorem two_requests_by_schedule:
  assumes "sched \<in> schedules"
    and "\<not> fst (is_port_operation_rate_limited p a c w)"
    and "clock w (ticks w) \<le> clock w (ticks w + 1)"
    and "clock w (ticks w + 1) \<le> clock w (ticks w + 2)"
    and "clock w (ticks w + 2) \<le> clock w (ticks w + 3)"
    and "clock w (ticks w + 3) - clock w (ticks w) \<le> 1 / 1000"
  shows "(serial sched \<longrightarrow>
            fst (run_threads sched p a (Arrived, Arrived, c, w)) = Accepted
              \<and> fst (snd (run_threads sched p a (Arrived, Arrived, c, w))) = Rejected
            \<or> fst (run_threads sched p a (Arrived, Arrived, c, w)) = Rejected
              \<and> fst (snd (run_threads sched p a (Arrived, Arrived, c, w))) = Accepted)
       \<and> (\<not> serial sched \<longrightarrow>
            fst (run_threads sched p a (Arrived, Arrived, c, w)) = Accepted
              \<and> fst (snd (run_threads sched p a (Arrived, Arrived, c, w))) = Accepted)"
proof (intro conjI impI)
  assume "serial sched"
  then consider "sched = [False, False, True, True]" | "sched = [True, True, False, False]"
    by (auto simp: serial_def)
  then show "fst (run_threads sched p a (Arrived, Arrived, c, w)) = Accepted
              \<and> fst (snd (run_threads sched p a (Arrived, Arrived, c, w))) = Rejected
            \<or> fst (run_threads sched p a (Arrived, Arrived, c, w)) = Rejected
              \<and> fst (snd (run_threads sched p a (Arrived, Arrived, c, w))) = Accepted"
  proof cases
    case 1
    with run_serial_first [OF assms(2-6)] show ?thesis by blast
  next
    case 2
    with run_serial_second [OF assms(2-6)] show ?thesis by blast
  qed
next
  assume "\<not> serial sched"
  with assms(1) have i: "sched \<in> {[False, True, False, True], [False, True, True, False],
                   [True, False, True, False], [True, False, False, True]}"
    by (auto simp: schedules_def serial_def)
  from run_interleaved [OF assms(2,3) i]
  show "fst (run_threads sched p a (Arrived, Arrived, c, w)) = Accepted"
    and "fst (snd (run_threads sched p a (Arrived, Arrived, c, w))) = Accepted"
    by blast+
qed

theorem two_requests_by_schedule_witness:
  "[False, False, True, True] \<in> schedules
   \<and> [False, True, False, True] \<in> schedules
   \<and> \<not> fst (is_port_operation_rate_limited 3 ''power_cycle'' init_controller
              (ticking_world 100 (1 / 10000) (Status_code 200)))
   \<and> clock (ticking_world 100 (1 / 10000) (Status_code 200))
        (ticks (ticking_world 100 (1 / 10000) (Status_code 200)))
      \<le> clock (ticking_world 100 (1 / 10000) (Status_code 200))
        (ticks (ticking_world 100 (1 / 10000) (Status_code 200)) + 1)
   \<and> clock (ticking_world 100 (1 / 10000) (Status_code 200))
        (ticks (ticking_world 100 (1 / 10000) (Status_code 200)) + 1)
      \<le> clock (ticking_world 100 (1 / 10000) (Status_code 200))
        (ticks (ticking_world 100 (1 / 10000) (Status_code 200)) + 2)
   \<and> clock (ticking_world 100 (1 / 10000) (Status_code 200))
        (ticks (ticking_world 100 (1 / 10000) (Status_code 200)) + 2)
      \<le> clock (ticking_world 100 (1 / 10000) (Status_code 200))
        (ticks (ticking_world 100 (1 / 10000) (Status_code 200)) + 3)
   \<and> clock (ticking_world 100 (1 / 10000) (Status_code 200))
        (ticks (ticking_world 100 (1 / 10000) (Status_code 200)) + 3)
      - clock (ticking_world 100 (1 / 10000) (Status_code 200))
        (ticks (ticking_world 100 (1 / 10000) (Status_code 200))) \<le> 1 / 1000
   \<and> serial [False, False, True, True]
   \<and> (fst (run_threads [False, False, True, True] 3 ''power_cycle''
         (Arrived, Arrived, init_controller, ticking_world 100 (1 / 10000) (Status_code 200)))
        = Accepted
       \<and> fst (snd (run_threads [False, False, True, True] 3 ''power_cycle''
         (Arrived, Arrived, init_controller, ticking_world 100 (1 / 10000) (Status_code 200))))
        = Rejected
      \<or> fst (run_threads [False, False, True, True] 3 ''power_cycle''
         (Arrived, Arrived, init_controller, ticking_world 100 (1 / 10000) (Status_code 200)))
        = Rejected
       \<and> fst (snd (run_threads [False, False, True, True] 3 ''power_cycle''
         (Arrived, Arrived, init_controller, ticking_world 100 (1 / 10000) (Status_code 200))))
        = Accepted)
   \<and> \<not> serial [False, True, False, True]
   \<and> fst (run_threads [False, True, False, True] 3 ''power_cycle''
         (Arrived, Arrived, init_controller, ticking_world 100 (1 / 10000) (Status_code 200)))
        = Accepted
   \<and> fst (snd (run_threads [False, True, False, True] 3 ''power_cycle''
         (Arrived, Arrived, init_controller, ticking_world 100 (1 / 10000) (Status_code 200))))
        = Accepted"
proof -
  let ?w = "ticking_world 100 (1 / 10000) (Status_code 200)"
  have m1: "[False, False, True, True] \<in> schedules"
    and m2: "[False, True, False, True] \<in> schedules"
    by (simp_all add: schedules_def)
  have n: "\<not> fst (is_port_operation_rate_limited 3 ''power_cycle'' init_controller ?w)"
    by (simp add: is_port_operation_rate_limited_def init_controller_def)
  have c1: "clock ?w (ticks ?w) \<le> clock ?w (ticks ?w + 1)"
    and c2: "clock ?w (ticks ?w + 1) \<le> clock ?w (ticks ?w + 2)"
    and c3: "clock ?w (ticks ?w + 2) \<le> clock ?w (ticks ?w + 3)"
    and c4: "clock ?w (ticks ?w + 3) - clock ?w (ticks ?w) \<le> 1 / 1000"
    by (simp_all add: ticking_world_def)
  have s1: "serial [False, False, True, True]" and s2: "\<not> serial [False, True, False, True]"
    by (simp_all add: serial_def)
  note t1 = two_requests_by_schedule [OF m1 n c1 c2 c3 c4]
  note t2 = two_requests_by_schedule [OF m2 n c1 c2 c3 c4]
  from t1 s1 have a: "fst (run_threads [False, False, True, True] 3 ''power_cycle''
         (Arrived, Arrived, init_controller, ?w)) = Accepted
       \<and> fst (snd (run_threads [False, False, True, True] 3 ''power_cycle''
         (Arrived, Arrived, init_controller, ?w))) = Rejected
      \<or> fst (run_threads [False, False, True, True] 3 ''power_cycle''
         (Arrived, Arrived, init_controller, ?w)) = Rejected
       \<and> fst (snd (run_threads [False, False, True, True] 3 ''power_cycle''
         (Arrived, Arrived, init_controller, ?w))) = Accepted"
    by blast
  from t2 s2 have b: "fst (run_threads [False, True, False, True] 3 ''power_cycle''
         (Arrived, Arrived, init_controller, ?w)) = Accepted
     \<and> fst (snd (run_threads [False, True, False, True] 3 ''power_cycle''
         (Arrived, Arrived, init_controller, ?w))) = Accepted"
    by blast
  from m1 m2 n c1 c2 c3 c4 s1 s2 a b show ?thesis by blast
qed

end
